theory Spec2Isabelle
  imports Main
begin

section \<open>The flag helper of skadoo: data model\<close>

text \<open>
  The module \<^verbatim>\<open>skadoo/flag.py\<close> builds one immutable record per command-line flag.
  Python's \<^verbatim>\<open>str\<close> is modelled as \<^typ>\<open>string\<close>, the argument vector as a
  \<^typ>\<open>string list\<close>, and every \<^verbatim>\<open>raise\<close> as the left summand of a sum type.
  The spec calls the field \<^verbatim>\<open>empty\<close> of the code \<^verbatim>\<open>expects_value\<close>, the field
  \<^verbatim>\<open>called\<close> \<^verbatim>\<open>present\<close>, \<^verbatim>\<open>flag\<close> \<^verbatim>\<open>long_form\<close> and \<^verbatim>\<open>short\<close>
  \<^verbatim>\<open>short_form\<close>.
\<close>

datatype error =
    ValueError string  \<comment> \<open>\<^verbatim>\<open>raise ValueError(msg)\<close>\<close>
  | IndexError         \<comment> \<open>\<^verbatim>\<open>parts[i]\<close> with \<^verbatim>\<open>i >= len(parts)\<close>\<close>
  | TypeError          \<comment> \<open>\<^verbatim>\<open>None + 1\<close>\<close>

text \<open>
  The named tuple \<^verbatim>\<open>Flag\<close>. The fields \<^verbatim>\<open>value\<close> and \<^verbatim>\<open>empty\<close> carry a suffix, since
  both words are taken in Isabelle.
\<close>

record Flag =
  name :: string
  flag :: string
  description :: string
  called :: bool
  short :: string
  value_str :: string
  empty_flag :: bool

section \<open>The helpers of \<^verbatim>\<open>skadoo.utils\<close>\<close>

text \<open>
  The module \<^verbatim>\<open>skadoo/utils.py\<close> is not among the sources at hand; its three functions
  used by \<^verbatim>\<open>flag.py\<close> are modelled from the specification. The argument vector, ambient
  process state in the program, is the explicit parameter \<open>argv\<close> (the arguments after the
  program name).
\<close>

definition get_command_parts :: "string list \<Rightarrow> string list" where
  \<comment> \<open>Modelled from the spec: \<^verbatim>\<open>utils.get_command_parts\<close> is missing; the Token Source
      "exposes the process's argument list as a sequence of strings (excluding the
      program name)".\<close>
  "get_command_parts argv = argv"

definition is_called :: "string list \<Rightarrow> string \<Rightarrow> string \<Rightarrow> bool" where
  \<comment> \<open>Modelled from the spec: \<^verbatim>\<open>utils.is_called\<close> is missing; "present = (long_form in
      tokens) OR (short_form in tokens)", by exact string equality.\<close>
  "is_called argv full abbreviation =
     (full \<in> set (get_command_parts argv) \<or> abbreviation \<in> set (get_command_parts argv))"

definition is_called_run :: "string list \<Rightarrow> string \<Rightarrow> string \<Rightarrow> bool \<times> string list" where
  \<comment> \<open>Modelled from the spec: \<^verbatim>\<open>utils.is_called\<close> is missing; the presence test as a
      step on the ambient token list, giving its answer and the token list it leaves
      behind: "No side effects".\<close>
  "is_called_run argv full abbreviation = (is_called argv full abbreviation, argv)"

definition is_space :: "char \<Rightarrow> bool" where
  \<comment> \<open>Modelled from the spec: the ASCII whitespace characters (space, tab, line feed,
      vertical tab, form feed, carriage return) on which a name is split.\<close>
  "is_space c = (of_char c \<in> set [32, 9, 10, 11, 12, 13 :: nat])"

definition lower_char :: "char \<Rightarrow> char" where
  \<comment> \<open>Modelled from the spec: word parts are lowercase; an ASCII capital is mapped to its
      small letter.\<close>
  "lower_char c =
     (let n = (of_char c :: nat) in if 65 \<le> n \<and> n \<le> 90 then char_of (n + 32) else c)"

fun split_words :: "string \<Rightarrow> string \<Rightarrow> string list" where
  \<comment> \<open>Modelled from the spec: "Split name on whitespace into ... word parts (word order
      preserved, no de-duplication of repeated words)"; \<open>w\<close> is the word being read.\<close>
  "split_words w [] = (if w = [] then [] else [w])"
| "split_words w (c # cs) =
     (if is_space c then (if w = [] then split_words [] cs else w # split_words [] cs)
      else split_words (w @ [c]) cs)"

definition get_name_parts :: "string \<Rightarrow> string list" where
  \<comment> \<open>Modelled from the spec: \<^verbatim>\<open>utils.get_name_parts\<close> is missing; the splitter
      "decomposes a human-readable flag name (e.g., "dry run") into an ordered sequence of
      lowercase word parts (e.g., ["dry","run"])".\<close>
  "get_name_parts name0 = split_words [] (map lower_char name0)"

section \<open>Python primitives used by \<^verbatim>\<open>flag.py\<close>\<close>

fun join :: "string \<Rightarrow> string list \<Rightarrow> string" where
  \<comment> \<open>\<^verbatim>\<open>sep.join(xs)\<close>\<close>
  "join sep [] = []"
| "join sep [x] = x"
| "join sep (x # y # ys) = x @ sep @ join sep (y # ys)"

fun list_index :: "string list \<Rightarrow> string \<Rightarrow> error + nat" where
  \<comment> \<open>\<^verbatim>\<open>xs.index(x)\<close>: the position of the first element equal to \<open>x\<close>; Python raises
      ValueError when there is none (its message quotes \<open>x\<close> by \<^verbatim>\<open>repr\<close>, left out here).\<close>
  "list_index [] x = Inl (ValueError (x @ '' is not in list''))"
| "list_index (y # ys) x =
     (if y = x then Inr 0
      else case list_index ys x of Inl err \<Rightarrow> Inl err | Inr i \<Rightarrow> Inr (Suc i))"

definition getitem :: "string list \<Rightarrow> nat \<Rightarrow> error + string" where
  \<comment> \<open>\<^verbatim>\<open>xs[i]\<close> for \<^verbatim>\<open>i >= 0\<close>: IndexError out of range.\<close>
  "getitem xs i = (if i < length xs then Inr (xs ! i) else Inl IndexError)"

section \<open>\<^verbatim>\<open>Flag.validate\<close>, \<^verbatim>\<open>parse_flag\<close> and \<^verbatim>\<open>create_flag\<close>\<close>

definition validate :: "Flag \<Rightarrow> error + unit" where
  "validate self =
     (if empty_flag self \<and> value_str self \<noteq> ''''
      then Inl (ValueError
             (''Cannot set value ('' @ value_str self @ '') for empty flag ('' @ flag self @ '')''))
      else Inr ())"

text \<open>
  In \<^verbatim>\<open>parse_flag\<close> the variable \<^verbatim>\<open>index\<close> starts as \<^verbatim>\<open>None\<close> and is assigned by two
  consecutive \<^verbatim>\<open>if\<close> statements (not \<^verbatim>\<open>if\<close>/\<^verbatim>\<open>elif\<close>): \<open>index1\<close> is its state after
  the first one, \<open>index2\<close> after the second one.
\<close>

definition parse_flag :: "string list \<Rightarrow> string \<Rightarrow> string \<Rightarrow> bool \<Rightarrow> error + string" where
  "parse_flag argv flag0 short0 empty0 =
     (let parts = get_command_parts argv in
      if flag0 \<notin> set parts \<and> short0 \<notin> set parts then Inr ''False''
      else if empty0 then Inr ''True''
      else
        case (if flag0 \<in> set parts
              then (case list_index parts flag0 of Inl err \<Rightarrow> Inl err | Inr i \<Rightarrow> Inr (Some i))
              else Inr None) of
          Inl err \<Rightarrow> Inl err
        | Inr index1 \<Rightarrow>
           (case (if short0 \<in> set parts
                  then (case list_index parts short0 of
                          Inl err \<Rightarrow> Inl err | Inr i \<Rightarrow> Inr (Some i))
                  else Inr index1) of
              Inl err \<Rightarrow> Inl err
            | Inr index2 \<Rightarrow>
               (case index2 of None \<Rightarrow> Inl TypeError | Some i \<Rightarrow> getitem parts (i + 1))))"

text \<open>
  \<^verbatim>\<open>create_flag(name, flag="", description="", short="", value="", empty=False)\<close>: the
  defaults of the keyword arguments are passed explicitly here. \<open>flag1\<close>, \<open>short1\<close> and
  \<open>value1\<close> are the variables \<^verbatim>\<open>flag\<close>, \<^verbatim>\<open>short\<close> and \<^verbatim>\<open>value\<close> after their
  conditional reassignment.
\<close>

definition create_flag ::
  "string list \<Rightarrow> string \<Rightarrow> string \<Rightarrow> string \<Rightarrow> string \<Rightarrow> string \<Rightarrow> bool \<Rightarrow> error + Flag" where
  "create_flag argv name0 flag0 description0 short0 value0 empty0 =
     (let flag_parts = get_name_parts name0;
          flag1 = (if flag0 = '''' then ''--'' @ join ''-'' flag_parts else flag0);
          short1 = (if short0 = '''' then ''-'' @ join '''' (map (take 1) flag_parts) else short0);
          called1 = is_called argv flag1 short1
      in case (if called1 then parse_flag argv flag1 short1 empty0 else Inr value0) of
           Inl err \<Rightarrow> Inl err
         | Inr value1 \<Rightarrow>
            (let result = \<lparr>name = name0, flag = flag1, description = description0,
                           called = called1, short = short1, value_str = value1,
                           empty_flag = empty0\<rparr>
             in case validate result of Inl err \<Rightarrow> Inl err | Inr _ \<Rightarrow> Inr result))"

section \<open>Notions of the specification\<close>

text \<open>
  The long and the short form that \<^verbatim>\<open>create_flag\<close> works with: the override when one is
  given, the derived form otherwise (the same terms as \<open>flag1\<close> and \<open>short1\<close> above).
\<close>

abbreviation long_form :: "string \<Rightarrow> string \<Rightarrow> string" where
  "long_form name0 flag0 \<equiv>
     (if flag0 = '''' then ''--'' @ join ''-'' (get_name_parts name0) else flag0)"

abbreviation short_form :: "string \<Rightarrow> string \<Rightarrow> string" where
  "short_form name0 short0 \<equiv>
     (if short0 = '''' then ''-'' @ join '''' (map (take 1) (get_name_parts name0)) else short0)"

fun spec_token_after :: "string list \<Rightarrow> string \<Rightarrow> string option" where
  \<comment> \<open>The specification's "token immediately after the first occurrence" of \<open>x\<close>: \<open>None\<close>
      when \<open>x\<close> does not occur or nothing follows its first occurrence.\<close>
  "spec_token_after [] x = None"
| "spec_token_after [y] x = None"
| "spec_token_after (y # z # zs) x = (if y = x then Some z else spec_token_after (z # zs) x)"

definition spec_message :: "string \<Rightarrow> string \<Rightarrow> string" where
  \<comment> \<open>The text of the validation error, naming the offending value and the long form.\<close>
  "spec_message v f = ''Cannot set value ('' @ v @ '') for empty flag ('' @ f @ '')''"

section \<open>Basic facts\<close>

lemma list_index_mem:
  "x \<in> set xs \<Longrightarrow> \<exists>i. list_index xs x = Inr i \<and> i < length xs \<and> xs ! i = x"
  by (induction xs) auto

lemma list_index_token_after:
  "list_index xs x = Inr i \<Longrightarrow>
     getitem xs (i + 1) = (case spec_token_after xs x of None \<Rightarrow> Inl IndexError | Some t \<Rightarrow> Inr t)"
proof (induction xs x arbitrary: i rule: spec_token_after.induct)
  case (1 x)
  then show ?case by simp
next
  case (2 y x)
  then show ?case by (auto simp: getitem_def split: if_splits sum.splits)
next
  case (3 y z zs x)
  show ?case
  proof (cases "y = x")
    case True
    with 3 show ?thesis by (simp add: getitem_def)
  next
    case False
    with 3 obtain j where j: "list_index (z # zs) x = Inr j" "i = Suc j"
      by (auto split: sum.splits)
    from 3(1)[OF False j(1)] False j(2) show ?thesis
      by (auto simp: getitem_def split: if_splits)
  qed
qed

lemma list_index_token_after_mem:
  "x \<in> set xs \<Longrightarrow>
     (case list_index xs x of Inl err \<Rightarrow> Inl err | Inr i \<Rightarrow> getitem xs (i + 1)) =
     (case spec_token_after xs x of None \<Rightarrow> Inl IndexError | Some t \<Rightarrow> Inr t)"
  using list_index_mem[of x xs] list_index_token_after[of xs x] by auto

lemma token_after_first_last:
  "x \<notin> set pre \<Longrightarrow> spec_token_after (pre @ [x]) x = None"
  by (induction pre x rule: spec_token_after.induct) auto

lemma token_after_first_next:
  "x \<notin> set pre \<Longrightarrow> spec_token_after (pre @ x # t # post) x = Some t"
  by (induction pre x rule: spec_token_after.induct) auto

lemma join_take1: "\<forall>p \<in> set parts. p \<noteq> [] \<Longrightarrow> join [] (map (take 1) parts) = map hd parts"
proof (induction parts rule: induct_list012)
  case 1
  then show ?case by simp
next
  case (2 p)
  then show ?case by (cases p) simp_all
next
  case (3 p q qs)
  then show ?case by (cases p) simp_all
qed

lemma split_words_nonempty: "p \<in> set (split_words w cs) \<Longrightarrow> p \<noteq> []"
  by (induction w cs rule: split_words.induct) (auto split: if_splits)

lemma get_name_parts_nonempty: "\<forall>p \<in> set (get_name_parts name0). p \<noteq> []"
  by (auto simp: get_name_parts_def dest: split_words_nonempty)

subsection \<open>What \<^verbatim>\<open>parse_flag\<close> returns\<close>

lemma parse_flag_absent:
  "flag0 \<notin> set argv \<Longrightarrow> short0 \<notin> set argv \<Longrightarrow> parse_flag argv flag0 short0 empty0 = Inr ''False''"
  by (simp add: parse_flag_def get_command_parts_def)

lemma parse_flag_empty:
  "flag0 \<in> set argv \<or> short0 \<in> set argv \<Longrightarrow> parse_flag argv flag0 short0 True = Inr ''True''"
  by (auto simp: parse_flag_def get_command_parts_def)

lemma parse_flag_short:
  assumes "short0 \<in> set argv"
  shows "parse_flag argv flag0 short0 False =
           (case spec_token_after argv short0 of None \<Rightarrow> Inl IndexError | Some t \<Rightarrow> Inr t)"
proof -
  from list_index_mem[OF assms] obtain i where i: "list_index argv short0 = Inr i"
    by blast
  have "parse_flag argv flag0 short0 False = getitem argv (i + 1)"
  proof (cases "flag0 \<in> set argv")
    case True
    from list_index_mem[OF True] obtain j where "list_index argv flag0 = Inr j"
      by blast
    with True assms i show ?thesis
      by (simp add: parse_flag_def get_command_parts_def)
  next
    case False
    with assms i show ?thesis
      by (simp add: parse_flag_def get_command_parts_def)
  qed
  with list_index_token_after[OF i] show ?thesis by simp
qed

lemma parse_flag_long:
  assumes "flag0 \<in> set argv" and "short0 \<notin> set argv"
  shows "parse_flag argv flag0 short0 False =
           (case spec_token_after argv flag0 of None \<Rightarrow> Inl IndexError | Some t \<Rightarrow> Inr t)"
proof -
  from list_index_mem[OF assms(1)] obtain i where i: "list_index argv flag0 = Inr i"
    by blast
  with assms have "parse_flag argv flag0 short0 False = getitem argv (i + 1)"
    by (simp add: parse_flag_def get_command_parts_def)
  with list_index_token_after[OF i] show ?thesis by simp
qed

subsection \<open>What \<^verbatim>\<open>create_flag\<close> returns\<close>

lemma create_flag_forms:
  assumes "F = long_form n f" and "S = short_form n s"
  shows "create_flag argv n f d s v e =
           (case (if is_called argv F S then parse_flag argv F S e else Inr v) of
              Inl err \<Rightarrow> Inl err
            | Inr value1 \<Rightarrow>
               (case validate \<lparr>name = n, flag = F, description = d, called = is_called argv F S,
                                short = S, value_str = value1, empty_flag = e\<rparr> of
                  Inl err \<Rightarrow> Inl err
                | Inr _ \<Rightarrow> Inr \<lparr>name = n, flag = F, description = d,
                                 called = is_called argv F S, short = S, value_str = value1,
                                 empty_flag = e\<rparr>))"
  unfolding assms create_flag_def Let_def by (rule refl)

lemma create_flag_absent_forms:
  assumes "F = long_form n f" and "S = short_form n s"
      and "F \<notin> set argv" and "S \<notin> set argv"
  shows "create_flag argv n f d s v e =
           (if e \<and> v \<noteq> [] then Inl (ValueError (spec_message v F))
            else Inr \<lparr>name = n, flag = F, description = d, called = False,
                      short = S, value_str = v, empty_flag = e\<rparr>)"
proof -
  from assms(3,4) have c: "\<not> is_called argv F S"
    by (simp add: is_called_def get_command_parts_def)
  show ?thesis
    unfolding create_flag_forms[OF assms(1,2)] using c
    by (simp add: validate_def spec_message_def)
qed

lemma create_flag_present_empty_forms:
  assumes "F = long_form n f" and "S = short_form n s"
      and "F \<in> set argv \<or> S \<in> set argv"
  shows "create_flag argv n f d s v True = Inl (ValueError (spec_message ''True'' F))"
proof -
  from assms(3) have c: "is_called argv F S"
    by (simp add: is_called_def get_command_parts_def)
  from parse_flag_empty[OF assms(3)] have p: "parse_flag argv F S True = Inr ''True''" .
  show ?thesis
    unfolding create_flag_forms[OF assms(1,2)] using c p
    by (simp add: validate_def spec_message_def)
qed

lemma create_flag_present_value_forms:
  assumes "F = long_form n f" and "S = short_form n s"
      and "m = (if S \<in> set argv then S else F)"
      and "m \<in> set argv"
  shows "create_flag argv n f d s v False =
           (case spec_token_after argv m of
              None \<Rightarrow> Inl IndexError
            | Some t \<Rightarrow> Inr \<lparr>name = n, flag = F, description = d, called = True,
                              short = S, value_str = t, empty_flag = False\<rparr>)"
proof -
  from assms(3,4) have c: "is_called argv F S"
    by (auto simp: is_called_def get_command_parts_def split: if_splits)
  have p: "parse_flag argv F S False =
             (case spec_token_after argv m of None \<Rightarrow> Inl IndexError | Some t \<Rightarrow> Inr t)"
  proof (cases "S \<in> set argv")
    case True
    with assms(3) parse_flag_short[OF True] show ?thesis by simp
  next
    case False
    with assms(3,4) have "F \<in> set argv" by simp
    from parse_flag_long[OF this False] False assms(3) show ?thesis by simp
  qed
  show ?thesis
    unfolding create_flag_forms[OF assms(1,2)] using c p
    by (simp add: validate_def split: option.splits)
qed

lemma create_flag_record_forms:
  assumes "F = long_form n f" and "S = short_form n s"
      and "create_flag argv n f d s v e = Inr r"
  shows "name r = n \<and> flag r = F \<and> description r = d \<and> short r = S \<and> empty_flag r = e \<and>
         called r = is_called argv F S"
  using assms(3) unfolding create_flag_forms[OF assms(1,2)]
  by (auto split: sum.splits)

section \<open>The claims\<close>

text \<open>
  In what follows \<open>argv\<close> is the token list, \<open>n\<close> the logical name, \<open>f\<close> and \<open>s\<close> the
  overrides of the long and the short form, \<open>d\<close> the description, \<open>v\<close> the value argument
  and the last argument the field \<^verbatim>\<open>empty\<close> (the spec's \<^verbatim>\<open>expects_value\<close>).
  Some names split once and for all:
\<close>

lemma name_parts_out: "get_name_parts ''out'' = [''out'']"
  by code_simp

lemma name_parts_dry_run: "get_name_parts ''dry run'' = [''dry'', ''run'']"
  by code_simp

subsection \<open>C1: a bare switch found among the tokens\<close>

text \<open>
  C1 says that \<^verbatim>\<open>create_flag(name="dry run", empty=True)\<close> against the tokens
  \<^verbatim>\<open>["--dry-run"]\<close> returns a record with long form \<^verbatim>\<open>--dry-run\<close>, short form
  \<^verbatim>\<open>-dr\<close>, \<^verbatim>\<open>called = True\<close> and the text \<^verbatim>\<open>"True"\<close> as its value. The code does
  not return there: \<^verbatim>\<open>parse_flag\<close> yields \<^verbatim>\<open>"True"\<close>, the record is built with it, and
  \<^verbatim>\<open>validate\<close> then finds an empty flag whose value is not the empty string and raises
  ValueError. By \<open>create_flag_present_empty_forms\<close> the same happens for every empty
  flag one of whose forms occurs among the tokens.
\<close>

theorem C1_dry_run_raises:
  "create_flag [''--dry-run''] ''dry run'' '''' '''' '''' '''' True =
     Inl (ValueError ''Cannot set value (True) for empty flag (--dry-run)'')"
  by code_simp

subsection \<open>C2: both forms among the tokens\<close>

text \<open>
  C2, as stated, fails: with the tokens \<^verbatim>\<open>["--out", "a", "-o", "b"]\<close> both forms of the
  flag \<^verbatim>\<open>out\<close> occur, the token after the first occurrence of the long form is
  \<^verbatim>\<open>"a"\<close>, and the extracted value is \<^verbatim>\<open>"b"\<close>: the second \<^verbatim>\<open>if\<close> of
  \<^verbatim>\<open>parse_flag\<close> overwrites the index found by the first one.
\<close>

theorem C2_counterexample:
  "''--out'' \<in> set [''--out'', ''a'', ''-o'', ''b''] \<and>
   ''-o'' \<in> set [''--out'', ''a'', ''-o'', ''b''] \<and>
   spec_token_after [''--out'', ''a'', ''-o'', ''b''] ''--out'' = Some ''a'' \<and>
   parse_flag [''--out'', ''a'', ''-o'', ''b''] ''--out'' ''-o'' False = Inr ''b'' \<and>
   create_flag [''--out'', ''a'', ''-o'', ''b''] ''out'' '''' '''' '''' '''' False =
     Inr \<lparr>name = ''out'', flag = ''--out'', description = '''', called = True,
          short = ''-o'', value_str = ''b'', empty_flag = False\<rparr>"
  by code_simp

text \<open>
  C2, amended: for every token list in which both the long form and the short form of a
  value-expecting flag (\<^verbatim>\<open>empty = False\<close>) occur, the extracted value is the token
  immediately after the first occurrence of the short form; when no token follows that
  occurrence, extraction raises IndexError. The position of the short form is the one used
  for the index lookup.
\<close>

theorem C2_short_form_position_wins:
  assumes "long_form n f \<in> set argv" and "short_form n s \<in> set argv"
  shows "parse_flag argv (long_form n f) (short_form n s) False =
           (case spec_token_after argv (short_form n s) of
              None \<Rightarrow> Inl IndexError | Some t \<Rightarrow> Inr t) \<and>
         create_flag argv n f d s v False =
           (case spec_token_after argv (short_form n s) of
              None \<Rightarrow> Inl IndexError
            | Some t \<Rightarrow> Inr \<lparr>name = n, flag = long_form n f, description = d, called = True,
                              short = short_form n s, value_str = t, empty_flag = False\<rparr>)"
proof
  show "parse_flag argv (long_form n f) (short_form n s) False =
          (case spec_token_after argv (short_form n s) of
             None \<Rightarrow> Inl IndexError | Some t \<Rightarrow> Inr t)"
    by (rule parse_flag_short[OF assms(2)])
next
  have "short_form n s = (if short_form n s \<in> set argv then short_form n s else long_form n f)"
    using assms(2) by simp
  from create_flag_present_value_forms[OF refl refl this assms(2)]
  show "create_flag argv n f d s v False =
          (case spec_token_after argv (short_form n s) of
             None \<Rightarrow> Inl IndexError
           | Some t \<Rightarrow> Inr \<lparr>name = n, flag = long_form n f, description = d, called = True,
                             short = short_form n s, value_str = t, empty_flag = False\<rparr>)" .
qed

theorem C2_short_form_position_wins_witness:
  "''--out'' \<in> set [''--out'', ''a'', ''-o'', ''b''] \<and>
   ''-o'' \<in> set [''--out'', ''a'', ''-o'', ''b''] \<and>
   parse_flag [''--out'', ''a'', ''-o'', ''b''] ''--out'' ''-o'' False = Inr ''b'' \<and>
   create_flag [''--out'', ''a'', ''-o'', ''b''] ''out'' '''' ''d'' '''' ''v'' False =
     Inr \<lparr>name = ''out'', flag = ''--out'', description = ''d'', called = True,
          short = ''-o'', value_str = ''b'', empty_flag = False\<rparr>"
  using C2_short_form_position_wins[where n = "''out''" and f = "''''" and s = "''''"
      and argv = "[''--out'', ''a'', ''-o'', ''b'']" and d = "''d''" and v = "''v''"]
  by (simp add: name_parts_out)

subsection \<open>C3: neither form among the tokens\<close>

text \<open>
  C3, as stated, fails: \<^verbatim>\<open>create_flag(name="out", value="a.out")\<close> against the tokens
  \<^verbatim>\<open>["input.txt"]\<close> returns a record with \<^verbatim>\<open>called = False\<close> whose value is
  \<^verbatim>\<open>"a.out"\<close>, not \<^verbatim>\<open>"False"\<close>: \<^verbatim>\<open>parse_flag\<close> is called only under
  \<^verbatim>\<open>if called\<close>, so the value argument is kept when the flag is absent.
\<close>

theorem C3_counterexample:
  "''--out'' \<notin> set [''input.txt''] \<and> ''-o'' \<notin> set [''input.txt''] \<and>
   create_flag [''input.txt''] ''out'' '''' '''' '''' ''a.out'' False =
     Inr \<lparr>name = ''out'', flag = ''--out'', description = '''', called = False,
          short = ''-o'', value_str = ''a.out'', empty_flag = False\<rparr> \<and>
   value_str \<lparr>name = ''out'', flag = ''--out'', description = '''', called = False,
          short = ''-o'', value_str = ''a.out'', empty_flag = False\<rparr> \<noteq> ''False''"
  by code_simp

text \<open>
  C3, amended: for every flag construction where the token list contains neither the long
  form nor the short form, every returned record has \<^verbatim>\<open>called = False\<close>; and when the
  caller passes a non-empty value argument to a value-expecting flag
  (\<^verbatim>\<open>empty = False\<close>), a record is returned whose value is that argument, unchanged.
  Nothing is said here about the value of the record when the value argument is the empty
  string, the default of the code, for which the docstrings announce \<^verbatim>\<open>"False"\<close>.
\<close>

theorem C3_absent_keeps_value:
  assumes "long_form n f \<notin> set argv" and "short_form n s \<notin> set argv"
  shows "(create_flag argv n f d s v e = Inr r \<longrightarrow> called r = False) \<and>
         (v \<noteq> [] \<longrightarrow>
            create_flag argv n f d s v False =
              Inr \<lparr>name = n, flag = long_form n f, description = d, called = False,
                   short = short_form n s, value_str = v, empty_flag = False\<rparr>)"
proof
  show "create_flag argv n f d s v e = Inr r \<longrightarrow> called r = False"
    using create_flag_absent_forms[OF refl refl assms, of d v e]
    by (auto split: if_splits)
next
  show "v \<noteq> [] \<longrightarrow>
          create_flag argv n f d s v False =
            Inr \<lparr>name = n, flag = long_form n f, description = d, called = False,
                 short = short_form n s, value_str = v, empty_flag = False\<rparr>"
    using create_flag_absent_forms[OF refl refl assms, of d v False] by simp
qed

theorem C3_absent_keeps_value_witness:
  "''--out'' \<notin> set [''build'', ''-v''] \<and> ''-o'' \<notin> set [''build'', ''-v''] \<and>
   ''b.out'' \<noteq> [] \<and>
   create_flag [''build'', ''-v''] ''out'' '''' ''target'' '''' ''b.out'' False =
     Inr \<lparr>name = ''out'', flag = ''--out'', description = ''target'', called = False,
          short = ''-o'', value_str = ''b.out'', empty_flag = False\<rparr> \<and>
   called \<lparr>name = ''out'', flag = ''--out'', description = ''target'', called = False,
          short = ''-o'', value_str = ''b.out'', empty_flag = False\<rparr> = False"
proof -
  have h1: "long_form ''out'' '''' \<notin> set [''build'', ''-v'']"
    by (simp add: name_parts_out)
  have h2: "short_form ''out'' '''' \<notin> set [''build'', ''-v'']"
    by (simp add: name_parts_out)
  from C3_absent_keeps_value[OF h1 h2, of "''target''" "''b.out''" False
      "\<lparr>name = ''out'', flag = ''--out'', description = ''target'', called = False,
          short = ''-o'', value_str = ''b.out'', empty_flag = False\<rparr>"]
  show ?thesis
    by (simp add: name_parts_out)
qed

subsection \<open>C4: no token after the flag\<close>

text \<open>
  C4, as stated, fails when the matched form occurs twice: with the tokens
  \<^verbatim>\<open>["--out", "a", "--out"]\<close> the long form is the last token, and construction returns a
  record with value \<^verbatim>\<open>"a"\<close>, since \<^verbatim>\<open>parts.index\<close> finds the first occurrence.
\<close>

theorem C4_counterexample:
  "last [''--out'', ''a'', ''--out''] = ''--out'' \<and>
   ''-o'' \<notin> set [''--out'', ''a'', ''--out''] \<and>
   create_flag [''--out'', ''a'', ''--out''] ''out'' '''' '''' '''' '''' False =
     Inr \<lparr>name = ''out'', flag = ''--out'', description = '''', called = True,
          short = ''-o'', value_str = ''a'', empty_flag = False\<rparr>"
  by code_simp

text \<open>
  C4, amended: for every value-expecting flag (\<^verbatim>\<open>empty = False\<close>) whose matched form
  \<open>m\<close> (the short form when it occurs among the tokens, the long form otherwise) has its
  first occurrence as the last token of the token list, construction fails with IndexError,
  raised during extraction; no record is returned.
\<close>

theorem C4_missing_value_raises:
  assumes "m = (if short_form n s \<in> set argv then short_form n s else long_form n f)"
      and "argv = pre @ [m]" and "m \<notin> set pre"
  shows "create_flag argv n f d s v False = Inl IndexError"
proof -
  from assms(2) have mem: "m \<in> set argv" by simp
  have "spec_token_after argv m = None"
    unfolding assms(2) by (rule token_after_first_last[OF assms(3)])
  with create_flag_present_value_forms[OF refl refl assms(1) mem]
  show ?thesis by simp
qed

theorem C4_missing_value_raises_witness:
  "''-o'' \<notin> set [''-v'', ''--out''] \<and> [''-v'', ''--out''] = [''-v''] @ [''--out''] \<and>
   ''--out'' \<notin> set [''-v''] \<and>
   create_flag [''-v'', ''--out''] ''out'' '''' '''' '''' ''a.out'' False = Inl IndexError"
proof -
  have h1: "''--out'' =
      (if short_form ''out'' '''' \<in> set [''-v'', ''--out''] then short_form ''out'' ''''
       else long_form ''out'' '''')"
    by (simp add: name_parts_out)
  have h2: "[''-v'', ''--out''] = [''-v''] @ [''--out'']"
    by simp
  have h3: "''--out'' \<notin> set [''-v'']"
    by simp
  from C4_missing_value_raises[OF h1 h2 h3] show ?thesis
    by simp
qed

subsection \<open>C5: an empty flag with a value argument\<close>

text \<open>
  C5: for every call to \<^verbatim>\<open>create_flag\<close> with \<^verbatim>\<open>empty = True\<close>, a non-empty value
  argument and a token list containing neither the long nor the short form, construction
  fails with the ValueError of \<^verbatim>\<open>validate\<close>, whose message names the value and the long
  form; no record is returned.
\<close>

theorem C5_empty_flag_with_value_rejected:
  assumes "long_form n f \<notin> set argv" and "short_form n s \<notin> set argv" and "v \<noteq> []"
  shows "create_flag argv n f d s v True =
           Inl (ValueError
             (''Cannot set value ('' @ v @ '') for empty flag ('' @ long_form n f @ '')''))"
  using create_flag_absent_forms[OF refl refl assms(1,2)] assms(3)
  by (simp add: spec_message_def)

theorem C5_empty_flag_with_value_rejected_witness:
  "''--dry-run'' \<notin> set [''build''] \<and> ''-dr'' \<notin> set [''build''] \<and> ''yes'' \<noteq> [] \<and>
   create_flag [''build''] ''dry run'' '''' '''' '''' ''yes'' True =
     Inl (ValueError ''Cannot set value (yes) for empty flag (--dry-run)'')"
  using C5_empty_flag_with_value_rejected[where n = "''dry run''" and f = "''''" and s = "''''"
      and argv = "[''build'']" and d = "''''" and v = "''yes''"]
  by (simp add: name_parts_dry_run)

subsection \<open>C6: the derived forms\<close>

text \<open>
  C6: when the name splits into the non-empty word parts \<open>parts\<close> and no override is
  given, the derived long form is \<^verbatim>\<open>--\<close> followed by the parts joined with \<^verbatim>\<open>-\<close>,
  and the derived short form is \<^verbatim>\<open>-\<close> followed by the first letter of each part in
  order. This is stated twice: a call without overrides behaves, on every token list and
  also when it raises, as the call with these two forms as overrides; and a returned record
  carries them. A one-word name is the case \<open>parts = [w]\<close>.
\<close>

theorem C6_derived_forms:
  assumes "get_name_parts n = parts" and "\<forall>p \<in> set parts. p \<noteq> []"
  shows "create_flag argv n '''' d '''' v e =
           create_flag argv n (''--'' @ join ''-'' parts) d (''-'' @ map hd parts) v e \<and>
         (create_flag argv n '''' d '''' v e = Inr r \<longrightarrow>
            flag r = ''--'' @ join ''-'' parts \<and> short r = ''-'' @ map hd parts)"
proof
  show "create_flag argv n '''' d '''' v e =
          create_flag argv n (''--'' @ join ''-'' parts) d (''-'' @ map hd parts) v e"
  proof -
    have L: "''--'' @ join ''-'' parts = long_form n ''''"
      using assms(1) by simp
    have S: "''-'' @ map hd parts = short_form n ''''"
      using assms(1) join_take1[OF assms(2)] by simp
    have L': "''--'' @ join ''-'' parts = long_form n (''--'' @ join ''-'' parts)"
      by simp
    have S': "''-'' @ map hd parts = short_form n (''-'' @ map hd parts)"
      by simp
    show ?thesis
      by (simp only: create_flag_forms[OF L S] create_flag_forms[OF L' S'])
  qed
next
  show "create_flag argv n '''' d '''' v e = Inr r \<longrightarrow>
          flag r = ''--'' @ join ''-'' parts \<and> short r = ''-'' @ map hd parts"
  proof
    assume "create_flag argv n '''' d '''' v e = Inr r"
    from create_flag_record_forms[OF refl refl this]
    have "flag r = long_form n ''''" and "short r = short_form n ''''"
      by blast+
    with assms(1) join_take1[OF assms(2)]
    show "flag r = ''--'' @ join ''-'' parts \<and> short r = ''-'' @ map hd parts"
      by simp
  qed
qed

theorem C6_derived_forms_witness:
  "get_name_parts ''dry run'' = [''dry'', ''run''] \<and> ''dry'' \<noteq> [] \<and> ''run'' \<noteq> [] \<and>
   create_flag [] ''dry run'' '''' '''' '''' '''' False =
     Inr \<lparr>name = ''dry run'', flag = ''--dry-run'', description = '''', called = False,
          short = ''-dr'', value_str = '''', empty_flag = False\<rparr> \<and>
   create_flag [] ''dry run'' '''' '''' '''' '''' False =
     create_flag [] ''dry run'' ''--dry-run'' '''' ''-dr'' '''' False \<and>
   flag \<lparr>name = ''dry run'', flag = ''--dry-run'', description = '''', called = False,
          short = ''-dr'', value_str = '''', empty_flag = False\<rparr> =
     ''--'' @ join ''-'' [''dry'', ''run''] \<and>
   short \<lparr>name = ''dry run'', flag = ''--dry-run'', description = '''', called = False,
          short = ''-dr'', value_str = '''', empty_flag = False\<rparr> =
     ''-'' @ map hd [''dry'', ''run'']"
proof -
  have p: "get_name_parts ''dry run'' = [''dry'', ''run'']"
    by code_simp
  have q: "\<forall>p \<in> set [''dry'', ''run'']. p \<noteq> []"
    by simp
  have c: "create_flag [] ''dry run'' '''' '''' '''' '''' False =
     Inr \<lparr>name = ''dry run'', flag = ''--dry-run'', description = '''', called = False,
          short = ''-dr'', value_str = '''', empty_flag = False\<rparr>"
    by code_simp
  from C6_derived_forms[OF p q, of "[]" "''''" "''''" False] p c show ?thesis
    by simp
qed

subsection \<open>C7: the presence test\<close>

text \<open>
  C7: the presence test is true if and only if the long form or the short form is an
  element of the token list (equality of whole strings), and it leaves the token list as
  it found it. The field \<^verbatim>\<open>called\<close> of every returned record is the result of that test
  on the record's own forms, and both answers are really returned: a flag neither of
  whose forms occurs (and that validation does not reject) gives a record with
  \<^verbatim>\<open>called = False\<close>, and a value-expecting flag one of whose forms occurs, with a token
  \<open>t\<close> after the first occurrence of the matched form, gives a record with
  \<^verbatim>\<open>called = True\<close>.
\<close>

theorem C7_present_iff_member:
  "is_called_run argv lf sf = ((lf \<in> set argv \<or> sf \<in> set argv), argv) \<and>
   (create_flag argv n f d s v e = Inr r \<longrightarrow>
      called r = (flag r \<in> set argv \<or> short r \<in> set argv)) \<and>
   (long_form n f \<notin> set argv \<and> short_form n s \<notin> set argv \<and> \<not> (e \<and> v \<noteq> []) \<longrightarrow>
      (\<exists>r'. create_flag argv n f d s v e = Inr r' \<and> \<not> called r')) \<and>
   ((long_form n f \<in> set argv \<or> short_form n s \<in> set argv) \<and> \<not> e \<and>
    spec_token_after argv
      (if short_form n s \<in> set argv then short_form n s else long_form n f) = Some t \<longrightarrow>
      (\<exists>r'. create_flag argv n f d s v e = Inr r' \<and> called r'))"
proof (intro conjI impI)
  show "is_called_run argv lf sf = ((lf \<in> set argv \<or> sf \<in> set argv), argv)"
    by (simp add: is_called_run_def is_called_def get_command_parts_def)
next
  assume "create_flag argv n f d s v e = Inr r"
  from create_flag_record_forms[OF refl refl this]
  have "called r = is_called argv (flag r) (short r)"
    by simp
  then show "called r = (flag r \<in> set argv \<or> short r \<in> set argv)"
    by (simp add: is_called_def get_command_parts_def)
next
  assume a: "long_form n f \<notin> set argv \<and> short_form n s \<notin> set argv \<and> \<not> (e \<and> v \<noteq> [])"
  then have a1: "long_form n f \<notin> set argv" and a2: "short_form n s \<notin> set argv"
    and a3: "\<not> (e \<and> v \<noteq> [])"
    by blast+
  from create_flag_absent_forms[OF refl refl a1 a2, of d v e] a3
  have "create_flag argv n f d s v e =
          Inr \<lparr>name = n, flag = long_form n f, description = d, called = False,
               short = short_form n s, value_str = v, empty_flag = e\<rparr>"
    by simp
  then show "\<exists>r'. create_flag argv n f d s v e = Inr r' \<and> \<not> called r'"
    by simp
next
  define m where "m = (if short_form n s \<in> set argv then short_form n s else long_form n f)"
  assume b: "(long_form n f \<in> set argv \<or> short_form n s \<in> set argv) \<and> \<not> e \<and>
    spec_token_after argv
      (if short_form n s \<in> set argv then short_form n s else long_form n f) = Some t"
  then have mem: "m \<in> set argv" and e: "e = False" and t: "spec_token_after argv m = Some t"
    unfolding m_def by auto
  from create_flag_present_value_forms[OF refl refl m_def mem, of d v] t
  have "create_flag argv n f d s v False =
          Inr \<lparr>name = n, flag = long_form n f, description = d, called = True,
               short = short_form n s, value_str = t, empty_flag = False\<rparr>"
    by simp
  with e show "\<exists>r'. create_flag argv n f d s v e = Inr r' \<and> called r'"
    by simp
qed

theorem C7_present_iff_member_witness:
  "''--output'' \<notin> set [''--output-dir'', ''-o'', ''x''] \<and>
   ''-o'' \<in> set [''--output-dir'', ''-o'', ''x''] \<and>
   spec_token_after [''--output-dir'', ''-o'', ''x''] ''-o'' = Some ''x'' \<and>
   create_flag [''--output-dir'', ''-o'', ''x''] ''output'' '''' '''' '''' '''' False =
     Inr \<lparr>name = ''output'', flag = ''--output'', description = '''', called = True,
          short = ''-o'', value_str = ''x'', empty_flag = False\<rparr> \<and>
   ''--output'' \<notin> set [''--output-dir'', ''-ox''] \<and> ''-o'' \<notin> set [''--output-dir'', ''-ox''] \<and>
   create_flag [''--output-dir'', ''-ox''] ''output'' '''' '''' '''' '''' False =
     Inr \<lparr>name = ''output'', flag = ''--output'', description = '''', called = False,
          short = ''-o'', value_str = '''', empty_flag = False\<rparr> \<and>
   is_called_run [''--output-dir'', ''-o'', ''x''] ''--output'' ''-o'' =
     (True, [''--output-dir'', ''-o'', ''x'']) \<and>
   is_called_run [''--output-dir'', ''-ox''] ''--output'' ''-o'' =
     (False, [''--output-dir'', ''-ox''])"
proof -
  have n: "get_name_parts ''output'' = [''output'']"
    by code_simp
  have p: "create_flag [''--output-dir'', ''-o'', ''x''] ''output'' '''' '''' '''' '''' False =
     Inr \<lparr>name = ''output'', flag = ''--output'', description = '''', called = True,
          short = ''-o'', value_str = ''x'', empty_flag = False\<rparr>"
    by code_simp
  have a: "create_flag [''--output-dir'', ''-ox''] ''output'' '''' '''' '''' '''' False =
     Inr \<lparr>name = ''output'', flag = ''--output'', description = '''', called = False,
          short = ''-o'', value_str = '''', empty_flag = False\<rparr>"
    by code_simp
  from C7_present_iff_member[where argv = "[''--output-dir'', ''-o'', ''x'']"
      and lf = "''--output''" and sf = "''-o''" and n = "''output''" and f = "''''"
      and d = "''''" and s = "''''" and v = "''''" and e = False and t = "''x''"
      and r = "\<lparr>name = ''output'', flag = ''--output'', description = '''', called = True,
          short = ''-o'', value_str = ''x'', empty_flag = False\<rparr>"]
  have present: "is_called_run [''--output-dir'', ''-o'', ''x''] ''--output'' ''-o'' =
      (True, [''--output-dir'', ''-o'', ''x'']) \<and>
    (\<exists>r'. create_flag [''--output-dir'', ''-o'', ''x''] ''output'' '''' '''' '''' '''' False = Inr r' \<and>
          called r')"
    by (simp add: n)
  from C7_present_iff_member[where argv = "[''--output-dir'', ''-ox'']"
      and lf = "''--output''" and sf = "''-o''" and n = "''output''" and f = "''''"
      and d = "''''" and s = "''''" and v = "''''" and e = False and t = "''x''"
      and r = "\<lparr>name = ''output'', flag = ''--output'', description = '''', called = False,
          short = ''-o'', value_str = '''', empty_flag = False\<rparr>"]
  have absent: "is_called_run [''--output-dir'', ''-ox''] ''--output'' ''-o'' =
      (False, [''--output-dir'', ''-ox'']) \<and>
    (\<exists>r'. create_flag [''--output-dir'', ''-ox''] ''output'' '''' '''' '''' '''' False = Inr r' \<and>
          \<not> called r')"
    by (simp add: n)
  from present absent p a show ?thesis
    by simp
qed

subsection \<open>C8: the token after the long form\<close>

text \<open>
  C8, as stated, fails when the long form occurs twice: in the tokens
  \<^verbatim>\<open>["--out", "y", "--out", "x"]\<close> the long form is immediately followed by \<^verbatim>\<open>"x"\<close>
  (its second occurrence), the short form does not occur, and the record's value is
  \<^verbatim>\<open>"y"\<close>, the token after the first occurrence.
\<close>

theorem C8_counterexample:
  "[''--out'', ''y'', ''--out'', ''x''] = [''--out'', ''y''] @ ''--out'' # ''x'' # [] \<and>
   ''-o'' \<notin> set [''--out'', ''y'', ''--out'', ''x''] \<and>
   create_flag [''--out'', ''y'', ''--out'', ''x''] ''out'' '''' '''' '''' '''' False =
     Inr \<lparr>name = ''out'', flag = ''--out'', description = '''', called = True,
          short = ''-o'', value_str = ''y'', empty_flag = False\<rparr>"
  by code_simp

text \<open>
  C8, amended: for every construction with \<^verbatim>\<open>empty = False\<close> where the first occurrence
  of the long form in the token list is immediately followed by a token \<open>x\<close> and the short
  form does not occur, the returned record has \<^verbatim>\<open>called = True\<close> and value \<open>x\<close>.
\<close>

theorem C8_value_is_next_token:
  assumes "argv = pre @ long_form n f # x # post" and "long_form n f \<notin> set pre"
      and "short_form n s \<notin> set argv"
  shows "create_flag argv n f d s v False =
           Inr \<lparr>name = n, flag = long_form n f, description = d, called = True,
                short = short_form n s, value_str = x, empty_flag = False\<rparr>"
proof -
  define F where "F = long_form n f"
  define S where "S = short_form n s"
  from assms have a: "argv = pre @ F # x # post" and b: "F \<notin> set pre" and c: "S \<notin> set argv"
    unfolding F_def S_def by blast+
  from a have mem: "F \<in> set argv" by simp
  from c have m: "F = (if S \<in> set argv then S else F)" by simp
  have t: "spec_token_after argv F = Some x"
    unfolding a by (rule token_after_first_next[OF b])
  from create_flag_present_value_forms[OF F_def S_def m mem, of d v] t
  have "create_flag argv n f d s v False =
          Inr \<lparr>name = n, flag = F, description = d, called = True,
               short = S, value_str = x, empty_flag = False\<rparr>"
    by simp
  then show ?thesis unfolding F_def S_def .
qed

theorem C8_value_is_next_token_witness:
  "[''-v'', ''--out'', ''x'', ''y''] = [''-v''] @ ''--out'' # ''x'' # [''y''] \<and>
   ''--out'' \<notin> set [''-v''] \<and> ''-o'' \<notin> set [''-v'', ''--out'', ''x'', ''y''] \<and>
   create_flag [''-v'', ''--out'', ''x'', ''y''] ''out'' '''' '''' '''' '''' False =
     Inr \<lparr>name = ''out'', flag = ''--out'', description = '''', called = True,
          short = ''-o'', value_str = ''x'', empty_flag = False\<rparr>"
proof -
  have h1: "[''-v'', ''--out'', ''x'', ''y''] = [''-v''] @ long_form ''out'' '''' # ''x'' # [''y'']"
    by (simp add: name_parts_out)
  have h2: "long_form ''out'' '''' \<notin> set [''-v'']"
    by (simp add: name_parts_out)
  have h3: "short_form ''out'' '''' \<notin> set [''-v'', ''--out'', ''x'', ''y'']"
    by (simp add: name_parts_out)
  from C8_value_is_next_token[OF h1 h2 h3, of "''''" "''''"] show ?thesis
    by (simp add: name_parts_out)
qed

subsection \<open>C10: validation of value-expecting flags\<close>

text \<open>
  C10: with \<^verbatim>\<open>empty = False\<close> validation never fails: \<^verbatim>\<open>validate\<close> accepts every
  record that is not declared empty, \<^verbatim>\<open>create_flag\<close> never raises ValueError, and its
  outcome is either the IndexError of extraction or a record, whatever the value argument
  and the token list.
\<close>

theorem C10_value_flag_never_invalid:
  "validate (r\<lparr>empty_flag := False\<rparr>) = Inr () \<and>
   (\<forall>msg. create_flag argv n f d s v False \<noteq> Inl (ValueError msg)) \<and>
   (create_flag argv n f d s v False = Inl IndexError \<or>
    (\<exists>t. create_flag argv n f d s v False =
       Inr \<lparr>name = n, flag = long_form n f, description = d,
            called = (long_form n f \<in> set argv \<or> short_form n s \<in> set argv),
            short = short_form n s, value_str = t, empty_flag = False\<rparr>))"
proof -
  define F where "F = long_form n f"
  define S where "S = short_form n s"
  have cases: "create_flag argv n f d s v False = Inl IndexError \<or>
    (\<exists>t. create_flag argv n f d s v False =
       Inr \<lparr>name = n, flag = F, description = d, called = (F \<in> set argv \<or> S \<in> set argv),
            short = S, value_str = t, empty_flag = False\<rparr>)"
  proof (cases "F \<in> set argv \<or> S \<in> set argv")
    case True
    define m where "m = (if S \<in> set argv then S else F)"
    with True have mem: "m \<in> set argv" by auto
    from create_flag_present_value_forms[OF F_def S_def m_def mem, of d v] True
    show ?thesis by (cases "spec_token_after argv m") simp_all
  next
    case False
    then have "F \<notin> set argv" and "S \<notin> set argv" by simp_all
    from create_flag_absent_forms[OF F_def S_def this, of d v False] False
    show ?thesis by simp
  qed
  then have "\<forall>msg. create_flag argv n f d s v False \<noteq> Inl (ValueError msg)"
    by auto
  moreover have "validate (r\<lparr>empty_flag := False\<rparr>) = Inr ()"
    by (simp add: validate_def)
  ultimately show ?thesis using cases unfolding F_def S_def by blast
qed

theorem C10_value_flag_never_invalid_witness:
  "create_flag [''build''] ''jobs'' '''' '''' '''' ''4'' False =
     Inr \<lparr>name = ''jobs'', flag = ''--jobs'', description = '''', called = False,
          short = ''-j'', value_str = ''4'', empty_flag = False\<rparr> \<and>
   create_flag [''build''] ''jobs'' '''' '''' '''' ''4'' False \<noteq>
     Inl (ValueError ''Cannot set value (4) for empty flag (--jobs)'')"
proof -
  have c: "create_flag [''build''] ''jobs'' '''' '''' '''' ''4'' False =
     Inr \<lparr>name = ''jobs'', flag = ''--jobs'', description = '''', called = False,
          short = ''-j'', value_str = ''4'', empty_flag = False\<rparr>"
    by code_simp
  from C10_value_flag_never_invalid[where argv = "[''build'']" and n = "''jobs''" and f = "''''"
      and d = "''''" and s = "''''" and v = "''4''"] c
  show ?thesis by simp
qed

end
